theory Spec2Isabelle
  imports Main
begin

section \<open>Data model (include/shell.h)\<close>

text \<open>
  A C string is modelled by the list of its characters before the terminating NUL.
  A pointer that may be NULL is an \<open>option\<close>. Allocation (\<open>calloc\<close>, \<open>strdup\<close>) is
  taken to succeed. A function that may leave defined behaviour (a NULL dereference, a
  loop that repeats in an unchanged state) returns an \<open>option\<close>, and \<open>None\<close> is that
  case.
\<close>

definition MAX_TOKENS :: nat where
  "MAX_TOKENS = 256"

definition MAX_PIPES :: nat where
  "MAX_PIPES = 64"

text \<open>
  \<open>command_t\<close>. The argument vector is a \<open>calloc\<close>'ed array of \<open>MAX_TOKENS\<close>
  pointers; the model keeps its leading entries up to and including the NULL that the
  builder stores at \<open>argv[argc]\<close> (every later entry is NULL as well).
\<close>

record command =
  argv :: "string option list option"
  input_file :: "string option"
  output_file :: "string option"
  append_output :: bool
  background :: bool

text \<open>\<open>pipeline_t\<close>: the command array and the separate count field.\<close>

record pipeline =
  commands :: "command list option"
  num_commands :: nat

text \<open>An element of a \<open>calloc\<close>'ed command array: all pointers NULL, all flags false.\<close>

definition zero_command :: command where
  "zero_command =
     \<lparr>argv = None, input_file = None, output_file = None,
      append_output = False, background = False\<rparr>"

definition zero_pipeline :: pipeline where
  "zero_pipeline = \<lparr>commands = None, num_commands = 0\<rparr>"

section \<open>Token scanner (src/parser.c, tokenize)\<close>

text \<open>\<open>isspace\<close> of the C locale: space, and the control characters 9 to 13.\<close>

definition isspace :: "char \<Rightarrow> bool" where
  "isspace c \<longleftrightarrow>
     c = CHR '' '' \<or> c = CHR 0x09 \<or> c = CHR 0x0A \<or> c = CHR 0x0B \<or> c = CHR 0x0C \<or> c = CHR 0x0D"

definition dquote :: char where
  "dquote = CHR 0x22"

definition squote :: char where
  "squote = CHR 0x27"

text \<open>
  The inner loop of \<open>tokenize\<close> (``find end of token''): it moves \<open>token\<close> over the
  characters and tracks \<open>in_quotes\<close> and \<open>quote_char\<close>. The result is the text between
  \<open>start\<close> and the final \<open>token\<close>, and the text from the final \<open>token\<close> on. Every
  character passed over, a quote character too, stays in the text.
\<close>

fun find_token_end :: "bool \<Rightarrow> char \<Rightarrow> string \<Rightarrow> string \<times> string" where
  "find_token_end in_quotes quote_char [] = ([], [])"
| "find_token_end in_quotes quote_char (c # cs) =
     (if \<not> in_quotes \<and> (c = dquote \<or> c = squote) then
        (case find_token_end True c cs of (t, r) \<Rightarrow> (c # t, r))
      else if in_quotes \<and> c = quote_char then
        (case find_token_end False quote_char cs of (t, r) \<Rightarrow> (c # t, r))
      else if \<not> in_quotes \<and> isspace c then ([], c # cs)
      else (case find_token_end in_quotes quote_char cs of (t, r) \<Rightarrow> (c # t, r)))"

text \<open>
  The outer loop. \<open>token\<close> is the rest of the line copy, \<open>count\<close> the number of tokens
  stored so far; the result is the list of tokens stored from here on. When the token
  is not at the end of the line, its end is overwritten with NUL and skipped
  (\<open>tl r\<close>). Were \<open>token = start\<close> after the inner loop, the C loop would repeat with
  the same \<open>token\<close> and \<open>count\<close> for ever: that is \<open>None\<close>.
\<close>

function tokenize_loop :: "string \<Rightarrow> nat \<Rightarrow> nat \<Rightarrow> string list option" where
  "tokenize_loop token count max_tokens =
     (if count < max_tokens - 1 then
        (let token1 = dropWhile isspace token in
         if token1 = [] then Some []
         else
           (case find_token_end False (CHR 0x00) token1 of
              (t, r) \<Rightarrow>
                if t \<noteq> [] then
                  (case tokenize_loop (if r \<noteq> [] then tl r else r) (Suc count) max_tokens of
                     None \<Rightarrow> None
                   | Some ts \<Rightarrow> Some (t # ts))
                else None))
      else Some [])"
  by pat_completeness auto
termination
  by (relation "measure (\<lambda>(token, count, max_tokens). max_tokens - 1 - count)") auto

declare tokenize_loop.simps [simp del]

definition tokenize :: "string \<Rightarrow> nat \<Rightarrow> string list option" where
  "tokenize line max_tokens = tokenize_loop line 0 max_tokens"

section \<open>Releasing a pipeline (src/parser.c, free_pipeline)\<close>

text \<open>The blocks handed to \<open>free\<close>, in the order of the calls; \<open>free(NULL)\<close> releases nothing.\<close>

datatype block = StringBlock string | ArgvBlock | CommandsBlock

text \<open>\<open>for (j = 0; cmd->argv[j]; j++) free(cmd->argv[j])\<close>: up to the first NULL entry.\<close>

fun free_strings :: "string option list \<Rightarrow> block list" where
  "free_strings [] = []"
| "free_strings (None # v) = []"
| "free_strings (Some s # v) = StringBlock s # free_strings v"

definition free_command :: "command \<Rightarrow> block list" where
  "free_command cmd =
     (case argv cmd of None \<Rightarrow> [] | Some v \<Rightarrow> free_strings v @ [ArgvBlock]) @
     (case input_file cmd of None \<Rightarrow> [] | Some f \<Rightarrow> [StringBlock f]) @
     (case output_file cmd of None \<Rightarrow> [] | Some f \<Rightarrow> [StringBlock f])"

text \<open>
  \<open>free_pipeline\<close> on a non-NULL \<open>pipeline\<close>: the new structure and the blocks released.
  Reading \<open>commands[i]\<close> through a NULL array or past its end is \<open>None\<close>.
\<close>

definition free_pipeline :: "pipeline \<Rightarrow> (pipeline \<times> block list) option" where
  "free_pipeline p =
     (case commands p of
        None \<Rightarrow>
          if num_commands p = 0
          then Some (p\<lparr>commands := None, num_commands := 0\<rparr>, [])
          else None
      | Some cs \<Rightarrow>
          if num_commands p \<le> length cs
          then Some (p\<lparr>commands := None, num_commands := 0\<rparr>,
                     concat (map free_command (take (num_commands p) cs)) @ [CommandsBlock])
          else None)"

section \<open>Pipeline builder (src/parser.c, parse_tokens and parse_command)\<close>

text \<open>The counting loop: one command, and one more for every token equal to \<open>|\<close>.\<close>

fun count_commands :: "string list \<Rightarrow> nat \<Rightarrow> nat" where
  "count_commands [] n = n"
| "count_commands (t # ts) n = count_commands ts (if t = ''|'' then Suc n else n)"

text \<open>
  The inner loop of \<open>parse_tokens\<close>, for one command: \<open>ts\<close> are the tokens from
  \<open>token_idx\<close> on, \<open>cmd\<close> is the array element being filled, \<open>av\<close> the local \<open>argv\<close>
  (\<open>argc\<close> is its length), \<open>is_last\<close> is \<open>cmd_idx == (int)num_commands - 1\<close>.
  \<open>Inl\<close> is \<open>goto error\<close>, with the array element and the local vector at that moment;
  \<open>Inr\<close> is leaving the loop, with the tokens that remain.
\<close>

fun parse_args ::
  "bool \<Rightarrow> string list \<Rightarrow> command \<Rightarrow> string list
     \<Rightarrow> (command \<times> string list) + (command \<times> string list \<times> string list)" where
  "parse_args is_last [] cmd av = Inr (cmd, av, [])"
| "parse_args is_last (t # ts) cmd av =
     (if t = ''|'' then Inr (cmd, av, ts)
      else if t = ''<'' then
        (case ts of
           [] \<Rightarrow> Inl (cmd, av)
         | f # ts' \<Rightarrow> parse_args is_last ts' (cmd\<lparr>input_file := Some f\<rparr>) av)
      else if t = ''>'' then
        (case ts of
           [] \<Rightarrow> Inl (cmd, av)
         | f # ts' \<Rightarrow>
             parse_args is_last ts' (cmd\<lparr>output_file := Some f, append_output := False\<rparr>) av)
      else if t = ''>>'' then
        (case ts of
           [] \<Rightarrow> Inl (cmd, av)
         | f # ts' \<Rightarrow>
             parse_args is_last ts' (cmd\<lparr>output_file := Some f, append_output := True\<rparr>) av)
      else if t = ''&'' then
        Inr (if is_last then cmd\<lparr>background := True\<rparr> else cmd, av, ts)
      else if length av \<ge> MAX_TOKENS - 1 then Inl (cmd, av)
      else parse_args is_last ts cmd (av @ [t]))"

text \<open>
  The outer loop: \<open>cs\<close> is the command array. Each round resets element \<open>cmd_idx\<close>,
  runs the inner loop, then stores the vector with its NULL terminator
  (\<open>argv[argc] = NULL; cmd->argv = argv\<close>). \<open>Inl\<close> is \<open>goto error\<close> with the array as it
  is then: the element being filled has its redirection files but no \<open>argv\<close> yet.
\<close>

function parse_commands ::
  "nat \<Rightarrow> nat \<Rightarrow> string list \<Rightarrow> command list \<Rightarrow> command list + command list" where
  "parse_commands cmd_idx n ts cs =
     (if cmd_idx < n \<and> ts \<noteq> [] then
        (case parse_args (int cmd_idx = int n - 1) ts zero_command [] of
           Inl (cmd, av) \<Rightarrow> Inl (cs[cmd_idx := cmd])
         | Inr (cmd, av, rest) \<Rightarrow>
             parse_commands (Suc cmd_idx) n rest
               (cs[cmd_idx := cmd\<lparr>argv := Some (map Some av @ [None])\<rparr>]))
      else Inr cs)"
  by pat_completeness auto
termination
  by (relation "measure (\<lambda>(cmd_idx, n, ts, cs). n - cmd_idx)") auto

declare parse_commands.simps [simp del]

text \<open>
  \<open>parse_tokens\<close>: the return value, the pipeline structure afterwards, and the blocks
  released on the way (by \<open>free_pipeline\<close> at the \<open>error\<close> label).
\<close>

definition parse_tokens :: "string list \<Rightarrow> pipeline \<Rightarrow> (int \<times> pipeline \<times> block list) option" where
  "parse_tokens tokens p =
     (if tokens = [] then Some (- 1, p, [])
      else
        (let n = count_commands tokens 1 in
         if n > MAX_PIPES then Some (- 1, p, [])
         else
           (case parse_commands 0 n tokens (replicate n zero_command) of
              Inr cs \<Rightarrow> Some (0, p\<lparr>commands := Some cs, num_commands := n\<rparr>, [])
            | Inl cs \<Rightarrow>
                (case free_pipeline (p\<lparr>commands := Some cs, num_commands := n\<rparr>) of
                   None \<Rightarrow> None
                 | Some (p', released) \<Rightarrow> Some (- 1, p', released)))))"

text \<open>
  \<open>parse_command\<close> with non-NULL arguments: the return value and the pipeline structure
  afterwards. A blank line and a line whose first non-blank character is \<open>#\<close> return 0
  with the zeroed structure.
\<close>

definition parse_command :: "string \<Rightarrow> (int \<times> pipeline) option" where
  "parse_command line =
     (let p = zero_pipeline; rest = dropWhile isspace line in
      if rest = [] \<or> hd rest = CHR ''#'' then Some (0, p)
      else
        (case tokenize line MAX_TOKENS of
           None \<Rightarrow> None
         | Some tokens \<Rightarrow>
             (case parse_tokens tokens p of
                None \<Rightarrow> None
              | Some (result, p', released) \<Rightarrow> Some (result, p'))))"

section \<open>The operating system as the executor sees it (src/shell.c)\<close>

text \<open>
  What a descriptor refers to: the terminal the shell was started on, the read or the
  write end of the \<open>i\<close>-th pipe that \<open>execute_pipeline\<close> created, or a file opened for a
  redirection (for output with its append flag).
\<close>

datatype open_file = Terminal | PipeRead nat | PipeWrite nat | InFile string | OutFile string bool

text \<open>
  A descriptor table: the open descriptors of one process, each with what it refers to,
  kept in increasing order of the descriptor.
\<close>

type_synonym fdtable = "(int \<times> open_file) list"

definition std_fds :: fdtable where
  "std_fds = [(0, Terminal), (1, Terminal), (2, Terminal)]"

definition STDIN_FILENO :: int where
  "STDIN_FILENO = 0"

definition STDOUT_FILENO :: int where
  "STDOUT_FILENO = 1"

fun fd_put :: "fdtable \<Rightarrow> int \<Rightarrow> open_file \<Rightarrow> fdtable" where
  "fd_put [] fd f = [(fd, f)]"
| "fd_put ((k, g) # t) fd f =
     (if fd < k then (fd, f) # (k, g) # t
      else if fd = k then (fd, f) # t
      else (k, g) # fd_put t fd f)"

text \<open>\<open>close(fd)\<close>: on a descriptor that is not open it fails and changes nothing.\<close>

definition close_fd :: "fdtable \<Rightarrow> int \<Rightarrow> fdtable" where
  "close_fd t fd = filter (\<lambda>(k, f). k \<noteq> fd) t"

text \<open>
  \<open>dup2(oldfd, newfd)\<close>: \<open>None\<close> is the return value -1 (\<open>oldfd\<close> is not open). With
  \<open>oldfd = newfd\<close> nothing changes; otherwise \<open>newfd\<close> is closed if open and made to
  refer to what \<open>oldfd\<close> refers to.
\<close>

definition dup2 :: "fdtable \<Rightarrow> int \<Rightarrow> int \<Rightarrow> fdtable option" where
  "dup2 t oldfd newfd =
     (case map_of t oldfd of
        None \<Rightarrow> None
      | Some f \<Rightarrow> Some (if oldfd = newfd then t else fd_put t newfd f))"

text \<open>
  The descriptor that \<open>open\<close> or \<open>pipe\<close> returns: the lowest one that is not open. Among
  \<open>0, ..., length t\<close> one is free, so \<open>length t\<close> further steps from 0 reach it.
\<close>

fun first_free :: "fdtable \<Rightarrow> int \<Rightarrow> nat \<Rightarrow> int" where
  "first_free t fd 0 = fd"
| "first_free t fd (Suc k) = (if map_of t fd = None then fd else first_free t (fd + 1) k)"

definition lowest_free :: "fdtable \<Rightarrow> int" where
  "lowest_free t = first_free t 0 (length t)"

text \<open>
  What \<open>waitpid\<close> stores in \<open>status\<close>, read through the macros of \<open>sys/wait.h\<close>:
  \<open>WEXITSTATUS\<close> is the low eight bits of the exit code.
\<close>

datatype wstatus = Exited nat | Signaled nat | Stopped nat

fun WIFEXITED :: "wstatus \<Rightarrow> bool" where
  "WIFEXITED (Exited c) = True"
| "WIFEXITED st = False"

fun WEXITSTATUS :: "wstatus \<Rightarrow> int" where
  "WEXITSTATUS (Exited c) = int (c mod 256)"
| "WEXITSTATUS st = 0"

fun WIFSIGNALED :: "wstatus \<Rightarrow> bool" where
  "WIFSIGNALED (Signaled sig) = True"
| "WIFSIGNALED st = False"

fun WTERMSIG :: "wstatus \<Rightarrow> int" where
  "WTERMSIG (Signaled sig) = int sig"
| "WTERMSIG st = 0"

text \<open>
  The answers of the system that the code cannot determine: whether the two \<open>calloc\<close>
  calls of \<open>execute_pipeline\<close> succeed, whether the \<open>i\<close>-th \<open>pipe\<close> call does, what the
  \<open>fork\<close> for command \<open>i\<close> returns in the shell (\<open>None\<close> is -1, otherwise the positive
  process id of the child), whether a path can be opened and a program executed, and
  what \<open>waitpid\<close> on the child of command \<open>i\<close> gives (\<open>None\<close> is the return value -1).
\<close>

record os =
  pids_alloc :: bool
  pipe_fds_alloc :: bool
  pipe_ok :: "nat \<Rightarrow> bool"
  fork_pid :: "nat \<Rightarrow> int option"
  open_ok :: "string \<Rightarrow> bool"
  exec_ok :: "string \<Rightarrow> bool"
  wait_result :: "nat \<Rightarrow> wstatus option"

text \<open>
  A child from its \<open>fork\<close> to the moment it calls \<open>execvp\<close> or \<open>exit\<close>: whether it has
  called \<open>setpgid(0, 0)\<close>, its descriptor table at that moment, and how it ends.
\<close>

datatype child_end = Execs "string option list" | Exits int

record child =
  child_pid :: int
  own_group :: bool
  child_fds :: fdtable
  ending :: child_end

text \<open>
  The shell process: its descriptor table, \<open>g_foreground_pgid\<close>, the children forked so
  far, the process ids the shell has made group leaders with \<open>setpgid(pid, pid)\<close>, the
  process ids passed to \<open>waitpid\<close> in the order of the calls, and the process ids
  printed by \<open>printf("[%d]\n", ...)\<close>.
\<close>

record shell =
  fds :: fdtable
  g_foreground_pgid :: int
  children :: "child list"
  leaders :: "int list"
  waited :: "int list"
  printed :: "int list"

section \<open>Pipeline executor (src/shell.c)\<close>

text \<open>
  \<open>setup_input_redirection\<close> and \<open>setup_output_redirection\<close>, with a non-NULL path:
  the return value and the descriptor table afterwards.
\<close>

definition setup_input_redirection :: "os \<Rightarrow> string \<Rightarrow> fdtable \<Rightarrow> int \<times> fdtable" where
  "setup_input_redirection sys path t =
     (if \<not> open_ok sys path then (- 1, t)
      else
        (let fd = lowest_free t; t1 = fd_put t fd (InFile path) in
         case dup2 t1 fd STDIN_FILENO of
           None \<Rightarrow> (- 1, close_fd t1 fd)
         | Some t2 \<Rightarrow> (0, close_fd t2 fd)))"

definition setup_output_redirection :: "os \<Rightarrow> string \<Rightarrow> bool \<Rightarrow> fdtable \<Rightarrow> int \<times> fdtable" where
  "setup_output_redirection sys path append_mode t =
     (if \<not> open_ok sys path then (- 1, t)
      else
        (let fd = lowest_free t; t1 = fd_put t fd (OutFile path append_mode) in
         case dup2 t1 fd STDOUT_FILENO of
           None \<Rightarrow> (- 1, close_fd t1 fd)
         | Some t2 \<Rightarrow> (0, close_fd t2 fd)))"

text \<open>
  The child branch of \<open>execute_command\<close> (\<open>pid == 0\<close>), in four steps that each either
  end the child with \<open>exit\<close> (\<open>Inl\<close>, with the table at that moment) or go on (\<open>Inr\<close>):
  pipe input, pipe output, input redirection, output redirection. Then \<open>execvp\<close>, and
  \<open>exit(127)\<close> if it returns.
\<close>

definition child_pipe_input :: "int \<Rightarrow> bool \<Rightarrow> fdtable \<Rightarrow> (int \<times> fdtable) + fdtable" where
  "child_pipe_input input_fd is_first t =
     (if \<not> is_first \<and> input_fd \<noteq> - 1 then
        (case dup2 t input_fd STDIN_FILENO of
           None \<Rightarrow> Inl (1, t)
         | Some t1 \<Rightarrow> Inr (close_fd t1 input_fd))
      else Inr t)"

definition child_pipe_output :: "int \<Rightarrow> bool \<Rightarrow> fdtable \<Rightarrow> (int \<times> fdtable) + fdtable" where
  "child_pipe_output output_fd is_last t =
     (if \<not> is_last \<and> output_fd \<noteq> - 1 then
        (case dup2 t output_fd STDOUT_FILENO of
           None \<Rightarrow> Inl (1, t)
         | Some t1 \<Rightarrow> Inr (close_fd t1 output_fd))
      else Inr t)"

definition child_input_file :: "os \<Rightarrow> command \<Rightarrow> fdtable \<Rightarrow> (int \<times> fdtable) + fdtable" where
  "child_input_file sys cmd t =
     (case input_file cmd of
        None \<Rightarrow> Inr t
      | Some f \<Rightarrow>
          (case setup_input_redirection sys f t of
             (r, t1) \<Rightarrow> if r = - 1 then Inl (1, t1) else Inr t1))"

definition child_output_file :: "os \<Rightarrow> command \<Rightarrow> fdtable \<Rightarrow> (int \<times> fdtable) + fdtable" where
  "child_output_file sys cmd t =
     (case output_file cmd of
        None \<Rightarrow> Inr t
      | Some f \<Rightarrow>
          (case setup_output_redirection sys f (append_output cmd) t of
             (r, t1) \<Rightarrow> if r = - 1 then Inl (1, t1) else Inr t1))"

definition child_wiring ::
  "os \<Rightarrow> command \<Rightarrow> int \<Rightarrow> int \<Rightarrow> bool \<Rightarrow> bool \<Rightarrow> fdtable \<Rightarrow> (int \<times> fdtable) + fdtable" where
  "child_wiring sys cmd input_fd output_fd is_first is_last t =
     (case child_pipe_input input_fd is_first t of
        Inl e \<Rightarrow> Inl e
      | Inr t1 \<Rightarrow>
          (case child_pipe_output output_fd is_last t1 of
             Inl e \<Rightarrow> Inl e
           | Inr t2 \<Rightarrow>
               (case child_input_file sys cmd t2 of
                  Inl e \<Rightarrow> Inl e
                | Inr t3 \<Rightarrow> child_output_file sys cmd t3)))"

text \<open>
  The whole child: it starts with a copy of the shell's descriptor table. \<open>v\<close> is the
  argument vector and \<open>prog\<close> its first entry.
\<close>

definition run_child ::
  "os \<Rightarrow> command \<Rightarrow> string option list \<Rightarrow> string \<Rightarrow> int \<Rightarrow> int \<Rightarrow> bool \<Rightarrow> bool
     \<Rightarrow> int \<Rightarrow> fdtable \<Rightarrow> child" where
  "run_child sys cmd v prog input_fd output_fd is_first is_last pid t =
     (case child_wiring sys cmd input_fd output_fd is_first is_last t of
        Inl (code, t1) \<Rightarrow>
          \<lparr>child_pid = pid, own_group = \<not> background cmd, child_fds = t1, ending = Exits code\<rparr>
      | Inr t1 \<Rightarrow>
          \<lparr>child_pid = pid, own_group = \<not> background cmd, child_fds = t1,
           ending = (if exec_ok sys prog then Execs v else Exits 127)\<rparr>)"

text \<open>
  \<open>execute_command\<close> as the shell sees it: the return value and the shell afterwards.
  \<open>cmd\<close> is \<open>None\<close> for a NULL pointer; \<open>i\<close> only tells the system which \<open>fork\<close> this is.
  The return value -1 comes without a \<open>fork\<close> when there is no \<open>argv[0]\<close>, and from a
  failed \<open>fork\<close>.
\<close>

definition execute_command ::
  "os \<Rightarrow> command option \<Rightarrow> int \<Rightarrow> int \<Rightarrow> bool \<Rightarrow> bool \<Rightarrow> nat \<Rightarrow> shell \<Rightarrow> int \<times> shell" where
  "execute_command sys cmd input_fd output_fd is_first is_last i sh =
     (case cmd of
        None \<Rightarrow> (- 1, sh)
      | Some c \<Rightarrow>
          (case argv c of
             None \<Rightarrow> (- 1, sh)
           | Some [] \<Rightarrow> (- 1, sh)
           | Some (None # v) \<Rightarrow> (- 1, sh)
           | Some (Some prog # v) \<Rightarrow>
               (case fork_pid sys i of
                  None \<Rightarrow> (- 1, sh)
                | Some pid \<Rightarrow>
                    (pid, sh\<lparr>children := children sh @
                       [run_child sys c (Some prog # v) prog input_fd output_fd
                          is_first is_last pid (fds sh)]\<rparr>))))"

text \<open>
  The loop that creates the pipes. \<open>Inl\<close> is the \<open>return 1\<close> after a failed \<open>pipe\<close>, with
  the descriptor table as it is then; \<open>Inr\<close> gives the table and \<open>pipe_fds\<close>.
\<close>

function create_pipes ::
  "os \<Rightarrow> nat \<Rightarrow> nat \<Rightarrow> fdtable \<Rightarrow> (int \<times> int) list
     \<Rightarrow> fdtable + (fdtable \<times> (int \<times> int) list)" where
  "create_pipes sys num_cmds i t pipe_fds =
     (if i < num_cmds - 1 then
        (if pipe_ok sys i then
           (let r = lowest_free t; t1 = fd_put t r (PipeRead i);
                w = lowest_free t1; t2 = fd_put t1 w (PipeWrite i)
            in create_pipes sys num_cmds (Suc i) t2 (pipe_fds @ [(r, w)]))
         else Inl t)
      else Inr (t, pipe_fds))"
  by pat_completeness auto
termination
  by (relation "measure (\<lambda>(sys, num_cmds, i, t, pipe_fds). num_cmds - 1 - i)") auto

declare create_pipes.simps [simp del]

text \<open>The cleanup loop after a failed launch: \<open>waitpid(pids[j], NULL, 0)\<close> for every \<open>j < i\<close>.\<close>

fun wait_forked :: "int list \<Rightarrow> shell \<Rightarrow> shell" where
  "wait_forked [] sh = sh"
| "wait_forked (pid # pids) sh = wait_forked pids (sh\<lparr>waited := waited sh @ [pid]\<rparr>)"

definition input_fd_of :: "(int \<times> int) list \<Rightarrow> nat \<Rightarrow> int" where
  "input_fd_of pipe_fds i = (if i > 0 then fst (pipe_fds ! (i - 1)) else - 1)"

definition output_fd_of :: "(int \<times> int) list \<Rightarrow> nat \<Rightarrow> nat \<Rightarrow> int" where
  "output_fd_of pipe_fds num_cmds i = (if i < num_cmds - 1 then snd (pipe_fds ! i) else - 1)"

text \<open>
  What the shell does after a successful \<open>execute_command\<close> for command \<open>i\<close>: it closes
  its two pipe descriptors and, for the first command when it is not a background
  command, sets \<open>g_foreground_pgid\<close> and calls \<open>setpgid(pid, pid)\<close>.
\<close>

definition after_fork ::
  "command list \<Rightarrow> (int \<times> int) list \<Rightarrow> nat \<Rightarrow> nat \<Rightarrow> int \<Rightarrow> shell \<Rightarrow> shell" where
  "after_fork cs pipe_fds num_cmds i pid sh =
     (let input_fd = input_fd_of pipe_fds i; output_fd = output_fd_of pipe_fds num_cmds i;
          t1 = (if input_fd \<noteq> - 1 then close_fd (fds sh) input_fd else fds sh);
          t2 = (if output_fd \<noteq> - 1 then close_fd t1 output_fd else t1);
          sh1 = sh\<lparr>fds := t2\<rparr>
      in if \<not> background (cs ! i) \<and> i = 0
         then sh1\<lparr>g_foreground_pgid := pid, leaders := leaders sh1 @ [pid]\<rparr>
         else sh1)"

text \<open>
  The loop that starts the commands; \<open>pids\<close> holds the \<open>i\<close> entries stored so far. \<open>Inl\<close>
  is the \<open>return 1\<close> after \<open>execute_command\<close> returned -1, with the shell after the
  cleanup loop; \<open>Inr\<close> is the end of the loop.
\<close>

function launch ::
  "os \<Rightarrow> command list \<Rightarrow> (int \<times> int) list \<Rightarrow> nat \<Rightarrow> nat \<Rightarrow> int list \<Rightarrow> shell
     \<Rightarrow> shell + (int list \<times> shell)" where
  "launch sys cs pipe_fds num_cmds i pids sh =
     (if i < num_cmds then
        (case execute_command sys (Some (cs ! i)) (input_fd_of pipe_fds i)
                (output_fd_of pipe_fds num_cmds i) (i = 0) (i = num_cmds - 1) i sh of
           (pid, sh1) \<Rightarrow>
             if pid = - 1 then Inl (wait_forked pids sh1)
             else launch sys cs pipe_fds num_cmds (Suc i) (pids @ [pid])
                    (after_fork cs pipe_fds num_cmds i pid sh1))
      else Inr (pids, sh))"
  by pat_completeness auto
termination
  by (relation "measure (\<lambda>(sys, cs, pipe_fds, num_cmds, i, pids, sh). num_cmds - i)") auto

declare launch.simps [simp del]

text \<open>
  The loop that waits for a foreground pipeline: the exit status so far and the shell.
  Only the last round can change the exit status.
\<close>

function wait_all :: "os \<Rightarrow> int list \<Rightarrow> nat \<Rightarrow> nat \<Rightarrow> int \<Rightarrow> shell \<Rightarrow> int \<times> shell" where
  "wait_all sys pids num_cmds i exit_status sh =
     (if i < num_cmds then
        (let sh1 = sh\<lparr>waited := waited sh @ [pids ! i]\<rparr> in
         case wait_result sys i of
           None \<Rightarrow> wait_all sys pids num_cmds (Suc i) exit_status sh1
         | Some status \<Rightarrow>
             if i = num_cmds - 1 then
               wait_all sys pids num_cmds (Suc i)
                 (if WIFEXITED status then WEXITSTATUS status
                  else if WIFSIGNALED status then 128 + WTERMSIG status
                  else exit_status) sh1
             else wait_all sys pids num_cmds (Suc i) exit_status sh1)
      else (exit_status, sh))"
  by pat_completeness auto
termination
  by (relation "measure (\<lambda>(sys, pids, num_cmds, i, exit_status, sh). num_cmds - i)") auto

declare wait_all.simps [simp del]

text \<open>
  \<open>execute_pipeline\<close> with a non-NULL pipeline: the return value and the shell
  afterwards. \<open>None\<close> stands for reading \<open>commands[i]\<close> through a NULL array or past its
  end.
\<close>

definition execute_pipeline :: "os \<Rightarrow> pipeline \<Rightarrow> shell \<Rightarrow> (int \<times> shell) option" where
  "execute_pipeline sys p sh =
     (if num_commands p = 0 then Some (0, sh)
      else
        (case commands p of
           None \<Rightarrow> None
         | Some cs \<Rightarrow>
             if length cs < num_commands p then None
             else
               (let num_cmds = num_commands p in
                if \<not> pids_alloc sys \<or> (\<not> pipe_fds_alloc sys \<and> num_cmds > 1) then Some (1, sh)
                else
                  (case create_pipes sys num_cmds 0 (fds sh) [] of
                     Inl t \<Rightarrow> Some (1, sh\<lparr>fds := t\<rparr>)
                   | Inr (t, pipe_fds) \<Rightarrow>
                       (case launch sys cs pipe_fds num_cmds 0 [] (sh\<lparr>fds := t\<rparr>) of
                          Inl sh1 \<Rightarrow> Some (1, sh1)
                        | Inr (pids, sh1) \<Rightarrow>
                            if \<not> background (cs ! (num_cmds - 1)) then
                              (case wait_all sys pids num_cmds 0 0 sh1 of
                                 (exit_status, sh2) \<Rightarrow>
                                   Some (exit_status, sh2\<lparr>g_foreground_pgid := 0\<rparr>))
                            else
                              Some (0, sh1\<lparr>printed := printed sh1 @ [pids ! (num_cmds - 1)],
                                           g_foreground_pgid := 0\<rparr>))))))"

section \<open>Vocabulary of the properties\<close>

text \<open>A command whose fields are the \<open>calloc\<close> defaults except for the argument vector.\<close>

definition simple_command :: "string list \<Rightarrow> command" where
  "simple_command args =
     \<lparr>argv = Some (map Some args @ [None]), input_file = None, output_file = None,
      append_output = False, background = False\<rparr>"

definition is_redirect :: "string \<Rightarrow> bool" where
  "is_redirect t \<longleftrightarrow> t = ''<'' \<or> t = ''>'' \<or> t = ''>>''"


text \<open>The number of lexemes that are exactly \<open>|\<close>.\<close>

definition pipe_count :: "string list \<Rightarrow> nat" where
  "pipe_count ts = length (filter (\<lambda>t. t = ''|'') ts)"

text \<open>The two kinds of line on which \<open>parse_command\<close> returns 0 before scanning.\<close>

definition is_blank :: "string \<Rightarrow> bool" where
  "is_blank line \<longleftrightarrow> dropWhile isspace line = []"

definition is_comment :: "string \<Rightarrow> bool" where
  "is_comment line \<longleftrightarrow> dropWhile isspace line \<noteq> [] \<and> hd (dropWhile isspace line) = CHR ''#''"

text \<open>
  The lexemes of a line when the limit never binds: a line of \<open>n\<close> characters has at
  most \<open>n\<close> lexemes, so the limit \<open>n + 2\<close> stops nothing.
\<close>

definition lexemes :: "string \<Rightarrow> string list option" where
  "lexemes line = tokenize line (length line + 2)"




text \<open>
  The walk of the builder over the lexemes, told without its data: the lexeme after a
  redirection operator is its file name whatever it is, \<open>|\<close> and \<open>&\<close> end the current
  command, any other lexeme is a word of the current command, and the walk is over once
  \<open>k\<close> commands have been ended. \<open>unfed_redirect k ts\<close>: the walk comes to a redirection
  operator that is the last lexeme. \<open>all_named k w ts\<close>: each of the \<open>k\<close> commands is begun
  before the lexemes run out and has a word when it ends (\<open>w\<close>: the current command
  has a word already).
\<close>

fun unfed_redirect :: "nat \<Rightarrow> string list \<Rightarrow> bool" where
  "unfed_redirect 0 ts = False"
| "unfed_redirect (Suc k) [] = False"
| "unfed_redirect (Suc k) (t # ts) =
     (if t = ''|'' \<or> t = ''&'' then unfed_redirect k ts
      else if is_redirect t then
        (case ts of [] \<Rightarrow> True | f # ts' \<Rightarrow> unfed_redirect (Suc k) ts')
      else unfed_redirect (Suc k) ts)"




text \<open>A command that \<open>execute_command\<close> forks for: \<open>argv\<close> is set and \<open>argv[0]\<close> is a string.\<close>

definition runnable :: "command \<Rightarrow> bool" where
  "runnable c \<longleftrightarrow> (case argv c of Some (Some prog # v) \<Rightarrow> True | _ \<Rightarrow> False)"

text \<open>
  The launch of a pipeline goes through: there is at least one command, the array holds
  \<open>num_commands\<close> commands that all have an \<open>argv[0]\<close>, and the system grants both
  allocations, every \<open>pipe\<close> and every \<open>fork\<close>.
\<close>

definition launches :: "os \<Rightarrow> pipeline \<Rightarrow> bool" where
  "launches sys p \<longleftrightarrow>
     0 < num_commands p \<and>
     (case commands p of
        None \<Rightarrow> False
      | Some cs \<Rightarrow> num_commands p \<le> length cs \<and> (\<forall>i<num_commands p. runnable (cs ! i))) \<and>
     pids_alloc sys \<and> (pipe_fds_alloc sys \<or> num_commands p \<le> 1) \<and>
     (\<forall>i<num_commands p - 1. pipe_ok sys i) \<and>
     (\<forall>i<num_commands p. \<exists>pid. fork_pid sys i = Some pid \<and> pid \<noteq> - 1)"

definition last_command :: "pipeline \<Rightarrow> command" where
  "last_command p = the (commands p) ! (num_commands p - 1)"

text \<open>The exit status that the last round of the waiting loop leaves, from \<open>e\<close> before it.\<close>

definition last_status :: "os \<Rightarrow> nat \<Rightarrow> int \<Rightarrow> int" where
  "last_status sys n e =
     (case wait_result sys (n - 1) of
        None \<Rightarrow> e
      | Some st \<Rightarrow> if WIFEXITED st then WEXITSTATUS st
                   else if WIFSIGNALED st then 128 + WTERMSIG st else e)"

text \<open>
  Systems for the examples: every allocation, \<open>pipe\<close>, \<open>open\<close> and \<open>execvp\<close> succeeds; the
  forks and the wait results are given. \<open>forks_all\<close> gives command \<open>i\<close> the process id
  \<open>100 + i\<close>; \<open>forks_until k\<close> does so except that the fork for command \<open>k\<close> fails.
\<close>

definition system_with :: "(nat \<Rightarrow> int option) \<Rightarrow> (nat \<Rightarrow> wstatus option) \<Rightarrow> os" where
  "system_with forks waits =
     \<lparr>pids_alloc = True, pipe_fds_alloc = True, pipe_ok = (\<lambda>i. True), fork_pid = forks,
      open_ok = (\<lambda>path. True), exec_ok = (\<lambda>prog. True), wait_result = waits\<rparr>"

definition forks_all :: "nat \<Rightarrow> int option" where
  "forks_all i = Some (100 + int i)"

definition forks_until :: "nat \<Rightarrow> nat \<Rightarrow> int option" where
  "forks_until k i = (if i = k then None else Some (100 + int i))"

text \<open>A shell with its three standard descriptors and no children.\<close>

definition fresh_shell :: shell where
  "fresh_shell =
     \<lparr>fds = std_fds, g_foreground_pgid = 0, children = [], leaders = [], waited = [],
      printed = []\<rparr>"

definition pipeline_of :: "command list \<Rightarrow> pipeline" where
  "pipeline_of cs = \<lparr>commands = Some cs, num_commands = length cs\<rparr>"

text \<open>The lexemes of \<open>a | a | ... | a\<close> with \<open>n\<close> commands.\<close>

definition words_piped :: "nat \<Rightarrow> string list" where
  "words_piped n = concat (replicate (n - 1) [''a'', ''|'']) @ [''a'']"

section \<open>The scanner always returns\<close>

lemma find_token_end_nonempty:
  "s \<noteq> [] \<Longrightarrow> \<not> isspace (hd s) \<Longrightarrow> fst (find_token_end False q s) \<noteq> []"
  by (cases s) (auto split: prod.splits)

lemma find_token_end_concat:
  "find_token_end iq q s = (t, r) \<Longrightarrow> s = t @ r"
  by (induction iq q s arbitrary: t r rule: find_token_end.induct)
     (auto split: if_splits prod.splits)

lemma dropWhile_isspace_hd:
  "dropWhile isspace s \<noteq> [] \<Longrightarrow> \<not> isspace (hd (dropWhile isspace s))"
  using hd_dropWhile by blast

lemma tokenize_loop_stop:
  "\<not> count < max_tokens - 1 \<Longrightarrow> tokenize_loop s count max_tokens = Some []"
  by (simp add: tokenize_loop.simps)

lemma tokenize_loop_blank:
  "dropWhile isspace s = [] \<Longrightarrow> tokenize_loop s count max_tokens = Some []"
  by (simp add: tokenize_loop.simps Let_def)

text \<open>One round of the outer loop that stores a token: the token is never empty.\<close>

lemma tokenize_loop_step:
  assumes "count < max_tokens - 1" "dropWhile isspace s \<noteq> []"
    and "find_token_end False (CHR 0x00) (dropWhile isspace s) = (t, r)"
  shows "t \<noteq> []" and "tokenize_loop s count max_tokens =
     map_option ((#) t) (tokenize_loop (if r \<noteq> [] then tl r else r) (Suc count) max_tokens)"
proof -
  show t: "t \<noteq> []"
    using find_token_end_nonempty [of "dropWhile isspace s" "CHR 0x00"] assms dropWhile_isspace_hd
    by fastforce
  show "tokenize_loop s count max_tokens =
     map_option ((#) t) (tokenize_loop (if r \<noteq> [] then tl r else r) (Suc count) max_tokens)"
    using assms t
    by (subst tokenize_loop.simps) (auto simp: Let_def split: option.splits)
qed

lemma tokenize_loop_returns:
  "\<exists>ts. tokenize_loop s c m = Some ts"
proof (induction s c m rule: tokenize_loop.induct)
  case (1 token count max_tokens)
  show ?case
  proof (cases "count < max_tokens - 1 \<and> dropWhile isspace token \<noteq> []")
    case False
    then show ?thesis using tokenize_loop_stop tokenize_loop_blank by blast
  next
    case True
    obtain t r where tr: "find_token_end False (CHR 0x00) (dropWhile isspace token) = (t, r)"
      by (cases "find_token_end False (CHR 0x00) (dropWhile isspace token)")
    from True tr have t: "t \<noteq> []" and
      st: "tokenize_loop token count max_tokens =
        map_option ((#) t) (tokenize_loop (if r \<noteq> [] then tl r else r) (Suc count) max_tokens)"
      using tokenize_loop_step by blast+
    from "1.IH" [OF _ refl _ tr [symmetric] t] True st show ?thesis by auto
  qed
qed

lemma tokenize_loop_length:
  "tokenize_loop s c m = Some ts \<Longrightarrow> length ts \<le> m - 1 - c"
proof (induction s c m arbitrary: ts rule: tokenize_loop.induct)
  case (1 token count max_tokens)
  show ?case
  proof (cases "count < max_tokens - 1 \<and> dropWhile isspace token \<noteq> []")
    case False
    with "1.prems" show ?thesis using tokenize_loop_stop tokenize_loop_blank by fastforce
  next
    case True
    obtain t r where tr: "find_token_end False (CHR 0x00) (dropWhile isspace token) = (t, r)"
      by (cases "find_token_end False (CHR 0x00) (dropWhile isspace token)")
    from True tr have t: "t \<noteq> []" and
      st: "tokenize_loop token count max_tokens =
        map_option ((#) t) (tokenize_loop (if r \<noteq> [] then tl r else r) (Suc count) max_tokens)"
      using tokenize_loop_step by blast+
    from st "1.prems" obtain ts' where
      ts': "tokenize_loop (if r \<noteq> [] then tl r else r) (Suc count) max_tokens = Some ts'" "ts = t # ts'"
      by (cases "tokenize_loop (if r \<noteq> [] then tl r else r) (Suc count) max_tokens") auto
    from "1.IH" [OF _ refl _ tr [symmetric] t ts'(1)] True
    have "length ts' \<le> max_tokens - 1 - Suc count" by simp
    moreover from True have "count < max_tokens - 1" by simp
    ultimately show ?thesis using ts' by (simp; arith)
  qed
qed

text \<open>A smaller limit keeps a prefix of what a larger limit gives.\<close>

lemma tokenize_loop_take:
  "m \<le> n \<Longrightarrow> tokenize_loop s c n = Some ts \<Longrightarrow> tokenize_loop s c m = Some (take (m - 1 - c) ts)"
proof (induction s c m arbitrary: ts rule: tokenize_loop.induct)
  case (1 token count max_tokens)
  show ?case
  proof (cases "count < max_tokens - 1")
    case False
    then show ?thesis by (simp add: tokenize_loop_stop)
  next
    case c: True
    show ?thesis
    proof (cases "dropWhile isspace token = []")
      case True
      with "1.prems" c show ?thesis by (simp add: tokenize_loop_blank)
    next
      case False
      obtain t r where tr: "find_token_end False (CHR 0x00) (dropWhile isspace token) = (t, r)"
        by (cases "find_token_end False (CHR 0x00) (dropWhile isspace token)")
      from c "1.prems" have cn: "count < n - 1" by simp
      from c False tr have t: "t \<noteq> []" and
        st: "tokenize_loop token count max_tokens =
          map_option ((#) t) (tokenize_loop (if r \<noteq> [] then tl r else r) (Suc count) max_tokens)"
        using tokenize_loop_step by blast+
      from cn False tr have
        stn: "tokenize_loop token count n =
          map_option ((#) t) (tokenize_loop (if r \<noteq> [] then tl r else r) (Suc count) n)"
        using tokenize_loop_step by blast
      from stn "1.prems" obtain ts' where
        ts': "tokenize_loop (if r \<noteq> [] then tl r else r) (Suc count) n = Some ts'" "ts = t # ts'"
        by (cases "tokenize_loop (if r \<noteq> [] then tl r else r) (Suc count) n") auto
      from "1.IH" [OF _ refl _ tr [symmetric] t "1.prems"(1) ts'(1)] c False
      have "tokenize_loop (if r \<noteq> [] then tl r else r) (Suc count) max_tokens =
              Some (take (max_tokens - 1 - Suc count) ts')" by simp
      moreover from c have "max_tokens - 1 - count = Suc (max_tokens - 1 - Suc count)" by simp
      ultimately show ?thesis using st ts' by simp
    qed
  qed
qed

text \<open>There are never more tokens than characters.\<close>

lemma tokenize_loop_le_length:
  "tokenize_loop s c m = Some ts \<Longrightarrow> length ts \<le> length s"
proof (induction s c m arbitrary: ts rule: tokenize_loop.induct)
  case (1 token count max_tokens)
  show ?case
  proof (cases "count < max_tokens - 1 \<and> dropWhile isspace token \<noteq> []")
    case False
    with "1.prems" show ?thesis using tokenize_loop_stop tokenize_loop_blank by fastforce
  next
    case True
    obtain t r where tr: "find_token_end False (CHR 0x00) (dropWhile isspace token) = (t, r)"
      by (cases "find_token_end False (CHR 0x00) (dropWhile isspace token)")
    from True tr have t: "t \<noteq> []" and
      st: "tokenize_loop token count max_tokens =
        map_option ((#) t) (tokenize_loop (if r \<noteq> [] then tl r else r) (Suc count) max_tokens)"
      using tokenize_loop_step by blast+
    from st "1.prems" obtain ts' where
      ts': "tokenize_loop (if r \<noteq> [] then tl r else r) (Suc count) max_tokens = Some ts'" "ts = t # ts'"
      by (cases "tokenize_loop (if r \<noteq> [] then tl r else r) (Suc count) max_tokens") auto
    from "1.IH" [OF _ refl _ tr [symmetric] t ts'(1)] True
    have "length ts' \<le> length (if r \<noteq> [] then tl r else r)" by simp
    moreover have "length (dropWhile isspace token) = length t + length r"
      using find_token_end_concat [OF tr] by (metis length_append)
    moreover have "length (dropWhile isspace token) \<le> length token"
      by (simp add: length_dropWhile_le)
    ultimately show ?thesis using ts' t by (cases t) (auto split: if_splits)
  qed
qed


section \<open>The builder: counting, lengths, causes of failure\<close>

lemma count_commands_eq: "count_commands ts n = n + pipe_count ts"
  by (induction ts arbitrary: n) (auto simp: pipe_count_def)

text \<open>
  The inner loop jumps to \<open>error\<close> only at a redirection operator that is the last token,
  or when the vector is full.
\<close>

lemma parse_args_error_cause:
  "parse_args l ts cmd av = Inl x \<Longrightarrow>
     (ts \<noteq> [] \<and> is_redirect (last ts)) \<or> MAX_TOKENS - 1 < length av + length ts"
proof (induction l ts cmd av rule: parse_args.induct)
  case (1 is_last cmd av)
  then show ?case by simp
next
  case (2 is_last t ts cmd av)
  show ?case
  proof (cases ts)
    case Nil
    with "2.prems" show ?thesis
      by (auto simp: is_redirect_def split: if_splits)
  next
    case (Cons f ts')
    with "2.prems" "2.IH" show ?thesis
      by (auto simp: is_redirect_def split: if_splits)
  qed
qed

lemma parse_args_rest:
  "parse_args l ts cmd av = Inr (cmd', av', rest) \<Longrightarrow>
     \<exists>pre. ts = pre @ rest \<and> (ts \<noteq> [] \<longrightarrow> pre \<noteq> [])"
proof (induction l ts cmd av rule: parse_args.induct)
  case (1 is_last cmd av)
  then show ?case by simp
next
  case (2 is_last t ts cmd av)
  show ?case
  proof (cases ts)
    case Nil
    with "2.prems" show ?thesis
      by (auto split: if_splits)
  next
    case (Cons f ts')
    with "2.prems" "2.IH" show ?thesis
      by (fastforce split: if_splits intro: exI [of _ "[t]"] simp: Cons_eq_append_conv)
  qed
qed

lemma parse_commands_length:
  "parse_commands i n ts cs = Inl cs' \<or> parse_commands i n ts cs = Inr cs' \<Longrightarrow>
     length cs' = length cs"
proof (induction i n ts cs rule: parse_commands.induct)
  case (1 cmd_idx n ts cs)
  show ?case
  proof (cases "cmd_idx < n \<and> ts \<noteq> []")
    case False
    with "1.prems" show ?thesis by (auto simp: parse_commands.simps)
  next
    case True
    show ?thesis
    proof (cases "parse_args (int cmd_idx = int n - 1) ts zero_command []")
      case (Inl x)
      with True "1.prems" show ?thesis
        by (auto simp: parse_commands.simps [of cmd_idx] split: prod.splits)
    next
      case (Inr y)
      obtain cmd av rest where y: "y = (cmd, av, rest)" by (cases y)
      from "1.IH" [OF True Inr y [THEN sym] refl] "1.prems" True Inr y
      show ?thesis
        by (auto simp: parse_commands.simps [of cmd_idx])
    qed
  qed
qed

lemma parse_commands_error_cause:
  "parse_commands i n ts cs = Inl cs' \<Longrightarrow>
     (ts \<noteq> [] \<and> is_redirect (last ts)) \<or> MAX_TOKENS - 1 < length ts"
proof (induction i n ts cs rule: parse_commands.induct)
  case (1 cmd_idx n ts cs)
  show ?case
  proof (cases "cmd_idx < n \<and> ts \<noteq> []")
    case False
    with "1.prems" show ?thesis by (auto simp: parse_commands.simps)
  next
    case True
    show ?thesis
    proof (cases "parse_args (int cmd_idx = int n - 1) ts zero_command []")
      case (Inl x)
      from parse_args_error_cause [OF Inl] show ?thesis by simp
    next
      case (Inr y)
      obtain cmd av rest where y: "y = (cmd, av, rest)" by (cases y)
      from parse_args_rest [OF Inr [unfolded y]] obtain pre where pre: "ts = pre @ rest" by blast
      from "1.prems" True Inr y have
        "parse_commands (Suc cmd_idx) n rest
           (cs[cmd_idx := cmd\<lparr>argv := Some (map Some av @ [None])\<rparr>]) = Inl cs'"
        by (auto simp: parse_commands.simps [of cmd_idx])
      from "1.IH" [OF True Inr y [THEN sym] refl this] pre show ?thesis
        by auto
    qed
  qed
qed

text \<open>The structure that \<open>parse_command\<close> leaves: zeroed, or an array of \<open>num_commands\<close> elements.\<close>

lemma parse_tokens_wf:
  "parse_tokens ts zero_pipeline = Some (r, p, rel) \<Longrightarrow>
     (commands p = None \<and> num_commands p = 0) \<or>
     (\<exists>cs. commands p = Some cs \<and> num_commands p = length cs)"
  by (auto simp: parse_tokens_def Let_def zero_pipeline_def free_pipeline_def
      split: if_splits sum.splits option.splits dest: parse_commands_length [OF disjI2])

lemma parse_command_wf:
  assumes "parse_command line = Some (r, p)"
  shows "(commands p = None \<and> num_commands p = 0) \<or>
         (\<exists>cs. commands p = Some cs \<and> num_commands p = length cs)"
  using assms
  by (auto simp: parse_command_def Let_def zero_pipeline_def
      split: if_splits option.splits dest!: parse_tokens_wf [unfolded zero_pipeline_def])

lemma free_pipeline_defined:
  "length cs = n \<Longrightarrow> \<exists>p' rel. free_pipeline (p\<lparr>commands := Some cs, num_commands := n\<rparr>) = Some (p', rel) \<and> commands p' = None \<and> num_commands p' = 0"
  by (simp add: free_pipeline_def)

lemma parse_tokens_cases:
  "parse_tokens ts p =
     (if ts = [] \<or> MAX_PIPES < Suc (pipe_count ts) then Some (- 1, p, [])
      else (case parse_commands 0 (Suc (pipe_count ts)) ts (replicate (Suc (pipe_count ts)) zero_command) of
              Inr cs \<Rightarrow> Some (0, p\<lparr>commands := Some cs, num_commands := Suc (pipe_count ts)\<rparr>, [])
            | Inl cs \<Rightarrow>
                (case free_pipeline (p\<lparr>commands := Some cs, num_commands := Suc (pipe_count ts)\<rparr>) of
                   None \<Rightarrow> None
                 | Some (p', released) \<Rightarrow> Some (- 1, p', released))))"
  by (simp add: parse_tokens_def Let_def count_commands_eq del: replicate.simps)


lemma pipe_count_Cons: "pipe_count (t # ts) = (if t = ''|'' then Suc (pipe_count ts) else pipe_count ts)"
  by (simp add: pipe_count_def)

lemma parse_tokens_failure_zeroed:
  "parse_tokens toks zero_pipeline = Some (- 1, p, released) \<Longrightarrow> p = zero_pipeline"
proof (cases "toks = [] \<or> MAX_PIPES < Suc (pipe_count toks)")
  case True
  assume "parse_tokens toks zero_pipeline = Some (- 1, p, released)"
  with True show ?thesis by (simp add: parse_tokens_cases)
next
  case False
  assume a: "parse_tokens toks zero_pipeline = Some (- 1, p, released)"
  let ?n = "Suc (pipe_count toks)"
  show ?thesis
  proof (cases "parse_commands 0 ?n toks (replicate ?n zero_command)")
    case (Inl cs)
    then have "length cs = ?n"
      using parse_commands_length [of 0 ?n toks "replicate ?n zero_command" cs] by simp
    then have "\<exists>rel. free_pipeline (zero_pipeline\<lparr>commands := Some cs, num_commands := ?n\<rparr>) = Some (zero_pipeline, rel)"
      by (simp add: free_pipeline_def zero_pipeline_def)
    with False Inl a show ?thesis by (auto simp add: parse_tokens_cases simp del: replicate.simps)
  next
    case (Inr cs)
    with False a show ?thesis by (simp add: parse_tokens_cases del: replicate.simps)
  qed
qed

lemma parse_command_cases:
  "parse_command line =
     (if is_blank line \<or> is_comment line then Some (0, zero_pipeline)
      else case tokenize line MAX_TOKENS of None \<Rightarrow> None
         | Some tokens \<Rightarrow> map_option (\<lambda>(r, p, released). (r, p)) (parse_tokens tokens zero_pipeline))"
  by (auto simp: parse_command_def Let_def is_comment_def is_blank_def split: option.splits)


lemma lexemes_limit_free:
  assumes "length line + 2 \<le> n"
  shows "tokenize line n = lexemes line"
proof -
  obtain ts where ts: "tokenize_loop line 0 n = Some ts" using tokenize_loop_returns by blast
  then have "length ts \<le> length line" by (rule tokenize_loop_le_length)
  with tokenize_loop_take [OF assms ts] ts show ?thesis
    by (simp add: tokenize_def lexemes_def)
qed

section \<open>The scanner splits at unquoted whitespace\<close>







section \<open>The builder's walk\<close>




lemma unfed_redirect_Nil [simp]: "unfed_redirect k [] = False"
  by (cases k) auto









section \<open>The executor: launching and waiting\<close>

text \<open>\<open>lowest_free\<close> is the lowest descriptor that is not open.\<close>

lemma first_free_spec:
  "first_free t fd k = n \<Longrightarrow>
     fd \<le> n \<and> n \<le> fd + int k \<and> (\<forall>j. fd \<le> j \<and> j < n \<longrightarrow> map_of t j \<noteq> None) \<and>
     (n < fd + int k \<longrightarrow> map_of t n = None)"
proof (induction t fd k arbitrary: n rule: first_free.induct)
  case (1 t fd)
  then show ?case by auto
next
  case (2 t fd k)
  show ?case
  proof (cases "map_of t fd = None")
    case True
    with "2.prems" show ?thesis by auto
  next
    case False
    with "2.prems" have "first_free t (fd + 1) k = n" by simp
    from "2.IH" [OF False this] False show ?thesis
      by (auto simp: order_le_less dest: zless_imp_add1_zle)
  qed
qed

lemma lowest_free_is_free: "map_of t (lowest_free t) = None"
proof (rule ccontr)
  assume a: "map_of t (lowest_free t) \<noteq> None"
  let ?n = "lowest_free t"
  from first_free_spec [of t 0 "length t" ?n]
  have n: "0 \<le> ?n" "?n \<le> int (length t)" "\<forall>j. 0 \<le> j \<and> j < ?n \<longrightarrow> map_of t j \<noteq> None"
    "?n < int (length t) \<longrightarrow> map_of t ?n = None"
    by (simp_all add: lowest_free_def)
  with a have e: "?n = int (length t)" by auto
  with n(3) a have "\<forall>j. 0 \<le> j \<and> j \<le> int (length t) \<longrightarrow> map_of t j \<noteq> None"
    by (metis order_le_less)
  then have "{0..int (length t)} \<subseteq> dom (map_of t)" by (auto simp: dom_def)
  also have "dom (map_of t) = fst ` set t" by (rule dom_map_of_conv_image_fst)
  finally have "card {0..int (length t)} \<le> card (fst ` set t)"
    by (intro card_mono) auto
  moreover have "card (fst ` set t) \<le> length t"
    by (metis card_image_le card_length le_trans List.finite_set)
  ultimately show False by simp
qed

lemma lowest_free_least: "0 \<le> j \<Longrightarrow> j < lowest_free t \<Longrightarrow> map_of t j \<noteq> None"
  using first_free_spec [of t 0 "length t" "lowest_free t"] by (simp add: lowest_free_def)

lemma create_pipes_succeeds:
  "\<forall>j<n - 1. pipe_ok sys j \<Longrightarrow> \<exists>t' pf. create_pipes sys n i t acc = Inr (t', pf)"
proof (induction sys n i t acc rule: create_pipes.induct)
  case (1 sys num_cmds i t pipe_fds)
  show ?case
  proof (cases "i < num_cmds - 1")
    case False
    then show ?thesis by (simp add: create_pipes.simps)
  next
    case True
    with "1.prems" have ok: "pipe_ok sys i" by simp
    from "1.IH" [OF True ok refl refl refl refl] "1.prems" True ok show ?thesis
      by (subst create_pipes.simps) (simp add: Let_def)
  qed
qed

lemma execute_command_forks:
  assumes "runnable c" "fork_pid sys i = Some pid"
  shows "\<exists>sh1. execute_command sys (Some c) ifd ofd b1 b2 i sh = (pid, sh1) \<and> waited sh1 = waited sh"
  using assms
  by (auto simp: execute_command_def runnable_def split: option.splits list.splits)

lemma after_fork_waited: "waited (after_fork cs pf n i pid sh) = waited sh"
  by (simp add: after_fork_def Let_def)

lemma launch_succeeds:
  "\<forall>j<n. runnable (cs ! j) \<and> (\<exists>pid. fork_pid sys j = Some pid \<and> pid \<noteq> - 1) \<Longrightarrow>
     \<exists>pids' sh'. launch sys cs pf n i pids sh = Inr (pids', sh') \<and> waited sh' = waited sh"
proof (induction sys cs pf n i pids sh rule: launch.induct)
  case (1 sys cs pipe_fds num_cmds i pids sh)
  show ?case
  proof (cases "i < num_cmds")
    case False
    then show ?thesis by (simp add: launch.simps)
  next
    case True
    with "1.prems" obtain pid where r: "runnable (cs ! i)" and f: "fork_pid sys i = Some pid" and
      pid: "pid \<noteq> - 1" by blast
    from execute_command_forks [OF r f] obtain sh1 where
      ec: "execute_command sys (Some (cs ! i)) (input_fd_of pipe_fds i)
                (output_fd_of pipe_fds num_cmds i) (i = 0) (i = num_cmds - 1) i sh = (pid, sh1)"
      and w: "waited sh1 = waited sh" by blast
    from "1.IH" [OF True ec [symmetric] pid "1.prems"] obtain pids' sh' where
      "launch sys cs pipe_fds num_cmds (Suc i) (pids @ [pid])
         (after_fork cs pipe_fds num_cmds i pid sh1) = Inr (pids', sh')"
      "waited sh' = waited (after_fork cs pipe_fds num_cmds i pid sh1)" by blast
    with True ec pid w show ?thesis
      by (subst launch.simps) (simp add: after_fork_waited)
  qed
qed

lemma wait_all_status:
  "fst (wait_all sys pids n i e sh) = (if i < n then last_status sys n e else e)"
proof (induction sys pids n i e sh rule: wait_all.induct)
  case (1 sys pids num_cmds i exit_status sh)
  show ?case
  proof (cases "i < num_cmds")
    case False
    then show ?thesis by (simp add: wait_all.simps)
  next
    case True
    show ?thesis
    proof (cases "wait_result sys i")
      case None
      with True "1.IH"(1) [OF True refl None] show ?thesis
        by (subst wait_all.simps) (auto simp: Let_def last_status_def dest: less_antisym)
    next
      case (Some st)
      show ?thesis
      proof (cases "i = num_cmds - 1")
        case l: True
        with True have "\<not> Suc i < num_cmds" by simp
        with True Some l "1.IH"(2) [OF True refl Some l] show ?thesis
          by (subst wait_all.simps) (simp add: Let_def last_status_def)
      next
        case l: False
        with True have "Suc i < num_cmds" by simp
        with True Some l "1.IH"(3) [OF True refl Some l] show ?thesis
          by (subst wait_all.simps) (simp add: Let_def)
      qed
    qed
  qed
qed


section \<open>Properties of the scanner\<close>




text \<open>
  C4 at the input of the repository's own test \<open>test_parse_quoted_strings\<close>: the line
  \<open>echo "hello world"\<close> gives one command whose second argument still carries both
  quote characters, where the test expects \<open>hello world\<close>.
\<close>

theorem quoted_word_keeps_quote_characters:
  "parse_command (''echo '' @ [dquote] @ ''hello world'' @ [dquote]) =
     Some (0, \<lparr>commands =
                 Some [simple_command [''echo'', [dquote] @ ''hello world'' @ [dquote]]],
               num_commands = 1\<rparr>)"
  by code_simp

section \<open>Releasing twice\<close>

text \<open>
  C9. \<open>free_pipeline\<close> is defined on every structure that \<open>parse_command\<close> leaves. Where
  it is defined it leaves the structure zeroed (\<open>commands\<close> NULL, \<open>num_commands\<close> 0), and
  a second call on that structure returns the same structure and releases no block.
\<close>

theorem free_pipeline_twice:
  "(parse_command line = Some (r, p) \<longrightarrow> free_pipeline p \<noteq> None) \<and>
   (free_pipeline p = Some (p', released) \<longrightarrow>
      commands p' = None \<and> num_commands p' = 0 \<and> free_pipeline p' = Some (p', []))"
proof
  show "parse_command line = Some (r, p) \<longrightarrow> free_pipeline p \<noteq> None"
    using parse_command_wf [of line r p] by (auto simp: free_pipeline_def)
  show "free_pipeline p = Some (p', released) \<longrightarrow>
      commands p' = None \<and> num_commands p' = 0 \<and> free_pipeline p' = Some (p', [])"
    by (auto simp: free_pipeline_def split: option.splits if_splits)
qed

theorem free_pipeline_twice_witness:
  "parse_command ''ls -la | grep test > output.txt'' =
     Some (0, \<lparr>commands = Some [simple_command [''ls'', ''-la''],
                  (simple_command [''grep'', ''test'']) \<lparr>output_file := Some ''output.txt''\<rparr>],
               num_commands = 2\<rparr>) \<and>
   free_pipeline \<lparr>commands = Some [simple_command [''ls'', ''-la''],
                  (simple_command [''grep'', ''test'']) \<lparr>output_file := Some ''output.txt''\<rparr>],
               num_commands = 2\<rparr> =
     Some (zero_pipeline,
       [StringBlock ''ls'', StringBlock ''-la'', ArgvBlock,
        StringBlock ''grep'', StringBlock ''test'', ArgvBlock, StringBlock ''output.txt'',
        CommandsBlock]) \<and>
   free_pipeline zero_pipeline = Some (zero_pipeline, [])"
proof -
  have 1: "parse_command ''ls -la | grep test > output.txt'' =
     Some (0, \<lparr>commands = Some [simple_command [''ls'', ''-la''],
                  (simple_command [''grep'', ''test'']) \<lparr>output_file := Some ''output.txt''\<rparr>],
               num_commands = 2\<rparr>)"
    by code_simp
  have 2: "free_pipeline \<lparr>commands = Some [simple_command [''ls'', ''-la''],
                  (simple_command [''grep'', ''test'']) \<lparr>output_file := Some ''output.txt''\<rparr>],
               num_commands = 2\<rparr> =
     Some (zero_pipeline,
       [StringBlock ''ls'', StringBlock ''-la'', ArgvBlock,
        StringBlock ''grep'', StringBlock ''test'', ArgvBlock, StringBlock ''output.txt'',
        CommandsBlock])"
    by code_simp
  from free_pipeline_twice [of "''ls -la | grep test > output.txt''" 0 _ zero_pipeline] 1 2
  show ?thesis by simp
qed

section \<open>Properties of the builder\<close>

text \<open>
  C6, as the code has it. For every non-empty lexeme sequence \<open>parse_tokens\<close> returns 0
  or -1. When it returns 0 the pipeline has one command more than there are \<open>|\<close>
  lexemes. It returns -1 whenever that number exceeds \<open>MAX_PIPES\<close> (64). When it returns
  -1 although the number is within the limit, the sequence ends in a redirection
  operator or has more than 255 lexemes.
\<close>

theorem builder_command_count:
  assumes "toks \<noteq> []"
  shows "\<exists>r p' released. parse_tokens toks p = Some (r, p', released) \<and> (r = 0 \<or> r = - 1) \<and>
     (r = 0 \<longrightarrow> num_commands p' = 1 + pipe_count toks \<and>
        (\<exists>cs. commands p' = Some cs \<and> length cs = 1 + pipe_count toks)) \<and>
     (MAX_PIPES < 1 + pipe_count toks \<longrightarrow> r = - 1) \<and>
     (r = - 1 \<and> 1 + pipe_count toks \<le> MAX_PIPES \<longrightarrow>
        is_redirect (last toks) \<or> MAX_TOKENS - 1 < length toks)"
proof (cases "MAX_PIPES < Suc (pipe_count toks)")
  case True
  then show ?thesis by (simp add: parse_tokens_cases)
next
  case False
  let ?n = "Suc (pipe_count toks)"
  show ?thesis
  proof (cases "parse_commands 0 ?n toks (replicate ?n zero_command)")
    case (Inl cs)
    then have "length cs = ?n"
      using parse_commands_length [of 0 ?n toks "replicate ?n zero_command" cs] by simp
    from free_pipeline_defined [OF this, of p] obtain p' rel where
      "free_pipeline (p\<lparr>commands := Some cs, num_commands := ?n\<rparr>) = Some (p', rel)" by blast
    with False Inl assms have "parse_tokens toks p = Some (- 1, p', rel)"
      by (simp add: parse_tokens_cases del: replicate.simps)
    moreover from parse_commands_error_cause [OF Inl] assms
    have "is_redirect (last toks) \<or> MAX_TOKENS - 1 < length toks" by simp
    ultimately show ?thesis using False by simp
  next
    case (Inr cs)
    then have "length cs = ?n"
      using parse_commands_length [of 0 ?n toks "replicate ?n zero_command" cs] by simp
    moreover from False Inr assms have
      "parse_tokens toks p = Some (0, p\<lparr>commands := Some cs, num_commands := ?n\<rparr>, [])"
      by (simp add: parse_tokens_cases del: replicate.simps)
    ultimately show ?thesis using False by simp
  qed
qed

text \<open>64 commands are accepted, 65 are rejected, and \<open>cat <\<close> is rejected within the limit.\<close>

theorem builder_command_count_witness:
  "map_option (\<lambda>(r, p, released). (r, num_commands p))
     (parse_tokens (words_piped 64) zero_pipeline) = Some (0, 64) \<and>
   map_option (\<lambda>(r, p, released). r) (parse_tokens (words_piped 65) zero_pipeline) =
     Some (- 1) \<and>
   map_option (\<lambda>(r, p, released). r) (parse_tokens [''cat'', ''<''] zero_pipeline) =
     Some (- 1) \<and>
   1 + pipe_count [''cat'', ''<''] \<le> MAX_PIPES \<and> is_redirect (last [''cat'', ''<''])"
proof -
  have 1: "map_option (\<lambda>(r, p, released). (r, num_commands p))
     (parse_tokens (words_piped 64) zero_pipeline) = Some (0, 64)" by code_simp
  have 2: "words_piped 65 \<noteq> []" by (simp add: words_piped_def)
  have 3: "MAX_PIPES < 1 + pipe_count (words_piped 65)" by code_simp
  from builder_command_count [OF 2, of zero_pipeline] 3
  have 4: "map_option (\<lambda>(r, p, released). r) (parse_tokens (words_piped 65) zero_pipeline) =
     Some (- 1)"
    by auto
  have 5: "map_option (\<lambda>(r, p, released). r) (parse_tokens [''cat'', ''<''] zero_pipeline) =
     Some (- 1) \<and>
   1 + pipe_count [''cat'', ''<''] \<le> MAX_PIPES \<and> \<not> MAX_TOKENS - 1 < length [''cat'', ''<'']"
    by code_simp
  with builder_command_count [of "[''cat'', ''<'']" zero_pipeline]
  have 6: "is_redirect (last [''cat'', ''<''])" by auto
  from 1 4 5 6 show ?thesis by simp
qed

text \<open>
  C6 as stated fails in the direction ``rejected only if the count exceeds the maximum'':
  \<open>cat <\<close> has one command and is rejected.
\<close>

theorem builder_rejects_within_limit_counterexample:
  "parse_tokens [''cat'', ''<''] zero_pipeline = Some (- 1, zero_pipeline, [CommandsBlock]) \<and>
   \<not> MAX_PIPES < 1 + pipe_count [''cat'', ''<'']"
  by code_simp








section \<open>The limit on the number of lexemes\<close>

text \<open>
  C10, as the code has it. On every line the scanner returns, with at most 255
  (\<open>MAX_TOKENS - 1\<close>) lexemes, and these are the first 255 lexemes of the line; what
  follows them is dropped without an error of the scanner. \<open>parse_command\<close> then gives
  what the builder gives on these first 255 lexemes alone, be it 0 or -1.
\<close>

theorem scanner_keeps_first_lexemes:
  "\<exists>toks all. tokenize line MAX_TOKENS = Some toks \<and> lexemes line = Some all \<and>
     toks = take (MAX_TOKENS - 1) all \<and> length toks \<le> MAX_TOKENS - 1 \<and>
     parse_command line =
       (if is_blank line \<or> is_comment line then Some (0, zero_pipeline)
        else map_option (\<lambda>(r, p, released). (r, p))
               (parse_tokens (take (MAX_TOKENS - 1) all) zero_pipeline))"
proof -
  obtain all where all: "lexemes line = Some all"
    using tokenize_loop_returns [of line 0 "length line + 2"] by (auto simp: lexemes_def tokenize_def)
  have t: "tokenize line MAX_TOKENS = Some (take (MAX_TOKENS - 1) all)"
  proof (cases "MAX_TOKENS \<le> length line + 2")
    case True
    from tokenize_loop_take [OF True, of line 0 all] all show ?thesis
      by (simp add: tokenize_def lexemes_def)
  next
    case False
    then have "length line + 2 \<le> MAX_TOKENS" by simp
    from lexemes_limit_free [OF this] all have e: "tokenize line MAX_TOKENS = Some all" by simp
    then have "length all \<le> MAX_TOKENS - 1"
      using tokenize_loop_length [of line 0 MAX_TOKENS all] by (simp add: tokenize_def)
    with e show ?thesis by simp
  qed
  then have "parse_command line =
       (if is_blank line \<or> is_comment line then Some (0, zero_pipeline)
        else map_option (\<lambda>(r, p, released). (r, p))
               (parse_tokens (take (MAX_TOKENS - 1) all) zero_pipeline))"
    by (simp add: parse_command_cases)
  with t all show ?thesis by simp
qed

text \<open>300 words: the command keeps the first 255, and the parse returns 0.\<close>

theorem scanner_keeps_first_lexemes_witness:
  "lexemes (concat (replicate 300 ''a '')) = Some (replicate 300 ''a'') \<and>
   parse_command (concat (replicate 300 ''a '')) =
     Some (0, \<lparr>commands = Some [simple_command (replicate 255 ''a'')], num_commands = 1\<rparr>)"
proof -
  let ?line = "concat (replicate 300 ''a '')"
  have 1: "lexemes ?line = Some (replicate 300 ''a'')" by code_simp
  have 2: "\<not> (is_blank ?line \<or> is_comment ?line)" by code_simp
  have 3: "map_option (\<lambda>(r, p, released). (r, p))
             (parse_tokens (take (MAX_TOKENS - 1) (replicate 300 ''a'')) zero_pipeline) =
     Some (0, \<lparr>commands = Some [simple_command (replicate 255 ''a'')], num_commands = 1\<rparr>)"
    by code_simp
  from scanner_keeps_first_lexemes [of ?line] 1 2 3 show ?thesis by auto
qed

text \<open>
  C10 as stated fails where the cut falls between a redirection operator and its file
  name: 254 words followed by \<open>> f\<close> are 256 lexemes that the builder accepts when it is
  given all of them, and \<open>parse_command\<close> returns -1 on the line.
\<close>

theorem cut_after_redirect_counterexample:
  "map_option length (lexemes (concat (replicate 254 ''a '') @ ''> f'')) = Some 256 \<and>
   map_option (\<lambda>(r, p, released). r)
     (parse_tokens (the (lexemes (concat (replicate 254 ''a '') @ ''> f''))) zero_pipeline) =
     Some 0 \<and>
   parse_command (concat (replicate 254 ''a '') @ ''> f'') = Some (- 1, zero_pipeline)"
  by code_simp

section \<open>Properties of the executor\<close>

text \<open>
  C2. \<open>execute_pipeline\<close> returns 0 for a pipeline of zero commands. When the launch
  goes through, it returns 0 for a background pipeline without any \<open>waitpid\<close> call, and
  for a foreground pipeline it returns the exit code of the last command (its low eight
  bits, so at most 255) when that command exited, and 128 plus the signal number when a
  signal ended it, whatever \<open>waitpid\<close> gives for the earlier commands.
\<close>

theorem execute_pipeline_status:
  "(num_commands p = 0 \<longrightarrow> execute_pipeline sys p sh = Some (0, sh)) \<and>
   (launches sys p \<and> background (last_command p) \<longrightarrow>
      (\<exists>sh'. execute_pipeline sys p sh = Some (0, sh') \<and> waited sh' = waited sh)) \<and>
   (launches sys p \<and> \<not> background (last_command p) \<and>
    wait_result sys (num_commands p - 1) = Some (Exited c) \<longrightarrow>
      (\<exists>sh'. execute_pipeline sys p sh = Some (int (c mod 256), sh')) \<and> c mod 256 \<le> 255) \<and>
   (launches sys p \<and> \<not> background (last_command p) \<and>
    wait_result sys (num_commands p - 1) = Some (Signaled sig) \<longrightarrow>
      (\<exists>sh'. execute_pipeline sys p sh = Some (128 + int sig, sh')))"
proof -
  have a: "num_commands p = 0 \<longrightarrow> execute_pipeline sys p sh = Some (0, sh)"
    by (simp add: execute_pipeline_def)
  have main: "\<exists>pids sh1. waited sh1 = waited sh \<and> execute_pipeline sys p sh =
       (if \<not> background (last_command p) then
          (case wait_all sys pids (num_commands p) 0 0 sh1 of
             (e, sh2) \<Rightarrow> Some (e, sh2\<lparr>g_foreground_pgid := 0\<rparr>))
        else Some (0, sh1\<lparr>printed := printed sh1 @ [pids ! (num_commands p - 1)],
                           g_foreground_pgid := 0\<rparr>))"
    if l: "launches sys p"
  proof -
    from l obtain cs where cs: "commands p = Some cs" "num_commands p \<le> length cs"
      "\<forall>i<num_commands p. runnable (cs ! i)"
      by (auto simp: launches_def split: option.splits)
    from l have n: "0 < num_commands p" and al: "pids_alloc sys"
      "pipe_fds_alloc sys \<or> num_commands p \<le> 1" and
      po: "\<forall>i<num_commands p - 1. pipe_ok sys i" and
      fo: "\<forall>i<num_commands p. \<exists>pid. fork_pid sys i = Some pid \<and> pid \<noteq> - 1"
      by (auto simp: launches_def)
    from create_pipes_succeeds [OF po] obtain t pf where
      cp: "create_pipes sys (num_commands p) 0 (fds sh) [] = Inr (t, pf)" by blast
    from cs(3) fo have "\<forall>j<num_commands p. runnable (cs ! j) \<and>
        (\<exists>pid. fork_pid sys j = Some pid \<and> pid \<noteq> - 1)" by simp
    from launch_succeeds [OF this, of pf 0 "[]" "sh\<lparr>fds := t\<rparr>"] obtain pids sh1 where
      la: "launch sys cs pf (num_commands p) 0 [] (sh\<lparr>fds := t\<rparr>) = Inr (pids, sh1)"
      and w: "waited sh1 = waited sh" by auto
    from n cs al cp la have "execute_pipeline sys p sh =
       (if \<not> background (last_command p) then
          (case wait_all sys pids (num_commands p) 0 0 sh1 of
             (e, sh2) \<Rightarrow> Some (e, sh2\<lparr>g_foreground_pgid := 0\<rparr>))
        else Some (0, sh1\<lparr>printed := printed sh1 @ [pids ! (num_commands p - 1)],
                           g_foreground_pgid := 0\<rparr>))"
      by (auto simp: execute_pipeline_def Let_def last_command_def)
    with w show ?thesis by blast
  qed
  have b: "launches sys p \<and> background (last_command p) \<longrightarrow>
      (\<exists>sh'. execute_pipeline sys p sh = Some (0, sh') \<and> waited sh' = waited sh)"
    using main by auto
  have fg: "\<exists>sh'. execute_pipeline sys p sh = Some (last_status sys (num_commands p) 0, sh')"
    if l: "launches sys p" and nb: "\<not> background (last_command p)"
  proof -
    from main [OF l] nb obtain pids sh1 where
      e: "execute_pipeline sys p sh =
          (case wait_all sys pids (num_commands p) 0 0 sh1 of
             (e, sh2) \<Rightarrow> Some (e, sh2\<lparr>g_foreground_pgid := 0\<rparr>))" by auto
    from l have n: "0 < num_commands p" by (simp add: launches_def)
    obtain e' sh2 where w: "wait_all sys pids (num_commands p) 0 0 sh1 = (e', sh2)"
      by (cases "wait_all sys pids (num_commands p) 0 0 sh1")
    with wait_all_status [of sys pids "num_commands p" 0 0 sh1] n
    have "e' = last_status sys (num_commands p) 0" by simp
    with e w show ?thesis by simp
  qed
  have c: "launches sys p \<and> \<not> background (last_command p) \<and>
    wait_result sys (num_commands p - 1) = Some (Exited c) \<longrightarrow>
      (\<exists>sh'. execute_pipeline sys p sh = Some (int (c mod 256), sh')) \<and> c mod 256 \<le> 255"
    using fg by (auto simp: last_status_def)
  have d: "launches sys p \<and> \<not> background (last_command p) \<and>
    wait_result sys (num_commands p - 1) = Some (Signaled sig) \<longrightarrow>
      (\<exists>sh'. execute_pipeline sys p sh = Some (128 + int sig, sh'))"
    using fg by (auto simp: last_status_def)
  from a b c d show ?thesis by blast
qed

text \<open>
  An empty pipeline; \<open>sleep 5 &\<close>; \<open>A | B\<close> where \<open>A\<close> exits with 7 and \<open>B\<close> with code 259
  (status 3); \<open>A | B\<close> where signal 2 ends \<open>B\<close>.
\<close>

theorem execute_pipeline_status_witness: 
  "map_option fst (execute_pipeline (system_with forks_all (\<lambda>i. Some (Exited 0))) zero_pipeline fresh_shell) = Some 0 \<and>
   map_option (\<lambda>(r, sh). (r, waited sh, printed sh))
     (execute_pipeline (system_with forks_all (\<lambda>i. Some (Exited 0)))
        (pipeline_of [(simple_command [''sleep'', ''5'']) \<lparr>background := True\<rparr>]) fresh_shell) =
     Some (0, [], [100]) \<and>
   map_option (\<lambda>(r, sh). (r, waited sh))
     (execute_pipeline (system_with forks_all (\<lambda>i. Some (Exited (if i = 0 then 7 else 259))))
        (pipeline_of [simple_command [''A''], simple_command [''B'']]) fresh_shell) =
     Some (3, [100, 101]) \<and>
   map_option (\<lambda>(r, sh). (r, waited sh))
     (execute_pipeline (system_with forks_all (\<lambda>i. Some (if i = 0 then Exited 7 else Signaled 2)))
        (pipeline_of [simple_command [''A''], simple_command [''B'']]) fresh_shell) =
     Some (130, [100, 101])"
proof -
  let ?bg = "pipeline_of [(simple_command [''sleep'', ''5'']) \<lparr>background := True\<rparr>]"
  let ?ab = "pipeline_of [simple_command [''A''], simple_command [''B'']]"
  let ?s1 = "system_with forks_all (\<lambda>i. Some (Exited 0))"
  let ?s2 = "system_with forks_all (\<lambda>i. Some (Exited (if i = 0 then 7 else 259)))"
  let ?s3 = "system_with forks_all (\<lambda>i. Some (if i = 0 then Exited 7 else Signaled 2))"
  have l1: "launches ?s1 ?bg \<and> background (last_command ?bg)"
    by (simp add: launches_def system_with_def forks_all_def pipeline_of_def runnable_def
      simple_command_def last_command_def)
  have l2: "launches ?s2 ?ab \<and> \<not> background (last_command ?ab) \<and>
      wait_result ?s2 (num_commands ?ab - 1) = Some (Exited 259)"
    by (simp add: launches_def system_with_def forks_all_def pipeline_of_def runnable_def
      simple_command_def last_command_def less_Suc_eq)
  have l3: "launches ?s3 ?ab \<and> \<not> background (last_command ?ab) \<and>
      wait_result ?s3 (num_commands ?ab - 1) = Some (Signaled 2)"
    by (simp add: launches_def system_with_def forks_all_def pipeline_of_def runnable_def
      simple_command_def last_command_def less_Suc_eq)
  have z: "num_commands zero_pipeline = 0" by (simp add: zero_pipeline_def)
  have e1: "map_option fst (execute_pipeline ?s1 zero_pipeline fresh_shell) = Some 0"
    using execute_pipeline_status [of zero_pipeline ?s1 fresh_shell] z by simp
  have e2: "map_option (\<lambda>(r, sh). (r, waited sh, printed sh)) (execute_pipeline ?s1 ?bg fresh_shell) =
     Some (0, [], [100])" by code_simp
  have e3: "\<exists>sh'. execute_pipeline ?s2 ?ab fresh_shell = Some (3, sh')"
    using execute_pipeline_status [of ?ab ?s2 fresh_shell 259] l2 by simp
  have e3': "map_option (\<lambda>(r, sh). waited sh) (execute_pipeline ?s2 ?ab fresh_shell) = Some [100, 101]"
    by code_simp
  have e4: "\<exists>sh'. execute_pipeline ?s3 ?ab fresh_shell = Some (130, sh')"
    using execute_pipeline_status [of ?ab ?s3 fresh_shell _ 2] l3 by simp
  have e4': "map_option (\<lambda>(r, sh). waited sh) (execute_pipeline ?s3 ?ab fresh_shell) = Some [100, 101]"
    by code_simp
  from e1 e2 e3 e3' e4 e4' show ?thesis by auto
qed

text \<open>
  C1 at the pipelines \<open>A | B\<close> and \<open>A | B | C\<close>, started from a shell that holds its three
  standard descriptors: the descriptor tables of the children at the moment of
  \<open>execvp\<close>. The child only closes the two descriptors it has duplicated. The child for
  \<open>A\<close> still holds the read end of its own pipe (descriptor 3) and, with three commands,
  both ends of the second pipe; the child for \<open>B\<close> still holds the read end of the second
  pipe.
\<close>

theorem child_keeps_other_pipe_ends:
  "map_option (\<lambda>(r, sh). (r, fds sh, map child_fds (children sh)))
     (execute_pipeline (system_with forks_all (\<lambda>i. Some (Exited 0)))
        (pipeline_of [simple_command [''A''], simple_command [''B'']]) fresh_shell) =
   Some (0, std_fds,
     [[(0, Terminal), (1, PipeWrite 0), (2, Terminal), (3, PipeRead 0)],
      [(0, PipeRead 0), (1, Terminal), (2, Terminal)]]) \<and>
   map_option (\<lambda>(r, sh). (r, fds sh, map child_fds (children sh)))
     (execute_pipeline (system_with forks_all (\<lambda>i. Some (Exited 0)))
        (pipeline_of [simple_command [''A''], simple_command [''B''], simple_command [''C'']])
        fresh_shell) =
   Some (0, std_fds,
     [[(0, Terminal), (1, PipeWrite 0), (2, Terminal), (3, PipeRead 0), (5, PipeRead 1),
       (6, PipeWrite 1)],
      [(0, PipeRead 0), (1, PipeWrite 1), (2, Terminal), (5, PipeRead 1)],
      [(0, PipeRead 1), (1, Terminal), (2, Terminal)]])"
  by code_simp

text \<open>In \<open>A | B\<close>, descriptor 3 of the child for \<open>A\<close> is the read end of the pipe.\<close>

theorem child_keeps_other_pipe_ends_witness:
  "map_option (\<lambda>(r, sh). map (\<lambda>c. map_of (child_fds c) 3) (children sh))
     (execute_pipeline (system_with forks_all (\<lambda>i. Some (Exited 0)))
        (pipeline_of [simple_command [''A''], simple_command [''B'']]) fresh_shell) =
   Some [Some (PipeRead 0), None]"
proof -
  let ?x = "execute_pipeline (system_with forks_all (\<lambda>i. Some (Exited 0)))
        (pipeline_of [simple_command [''A''], simple_command [''B'']]) fresh_shell"
  from child_keeps_other_pipe_ends obtain r sh where
    x: "?x = Some (r, sh)" and
    m: "map child_fds (children sh) =
          [[(0, Terminal), (1, PipeWrite 0), (2, Terminal), (3, PipeRead 0)],
           [(0, PipeRead 0), (1, Terminal), (2, Terminal)]]"
    by auto
  have "map (\<lambda>c. map_of (child_fds c) 3) (children sh) =
        map (\<lambda>t. map_of t 3) (map child_fds (children sh))" by simp
  also have "\<dots> = [Some (PipeRead 0), None]" by (simp only: m) simp
  finally show ?thesis using x by simp
qed

text \<open>
  C7 at the pipeline \<open>A | B\<close>: the return value, the shell's descriptor table afterwards,
  the children forked and the process ids waited for. When the fork for \<open>B\<close> fails, the
  shell waits for the child of \<open>A\<close> once and returns 1, and it still holds the read end
  of the pipe. When the fork for \<open>A\<close> fails, it returns 1 holding both ends.
\<close>

theorem fork_failure_leaves_pipe_ends_open:
  "map_option (\<lambda>(r, sh). (r, fds sh, map child_pid (children sh), waited sh))
     (execute_pipeline (system_with (forks_until 1) (\<lambda>i. Some (Exited 0)))
        (pipeline_of [simple_command [''A''], simple_command [''B'']]) fresh_shell) =
   Some (1, [(0, Terminal), (1, Terminal), (2, Terminal), (3, PipeRead 0)], [100], [100]) \<and>
   map_option (\<lambda>(r, sh). (r, fds sh, map child_pid (children sh), waited sh))
     (execute_pipeline (system_with (forks_until 0) (\<lambda>i. Some (Exited 0)))
        (pipeline_of [simple_command [''A''], simple_command [''B'']]) fresh_shell) =
   Some (1, [(0, Terminal), (1, Terminal), (2, Terminal), (3, PipeRead 0), (4, PipeWrite 0)],
         [], [])"
  by code_simp

text \<open>
  After the failed fork for \<open>B\<close>: the return value 1, descriptor 3 of the shell, and the
  one process id waited for.
\<close>

theorem fork_failure_leaves_pipe_ends_open_witness:
  "map_option (\<lambda>(r, sh). (r, map_of (fds sh) 3, waited sh))
     (execute_pipeline (system_with (forks_until 1) (\<lambda>i. Some (Exited 0)))
        (pipeline_of [simple_command [''A''], simple_command [''B'']]) fresh_shell) =
   Some (1, Some (PipeRead 0), [100])"
proof -
  let ?x = "execute_pipeline (system_with (forks_until 1) (\<lambda>i. Some (Exited 0)))
        (pipeline_of [simple_command [''A''], simple_command [''B'']]) fresh_shell"
  from fork_failure_leaves_pipe_ends_open obtain sh where
    x: "?x = Some (1, sh)" and
    m: "fds sh = [(0, Terminal), (1, Terminal), (2, Terminal), (3, PipeRead 0)]" and
    w: "waited sh = [100]"
    by auto
  show ?thesis using x w by (simp add: m)
qed

end
